theory Spec2Isabelle
  imports Complex_Main "HOL-Library.Multiset"
begin

section \<open>Python values\<close>

text \<open>
  A Python \<open>str\<close> is a sequence of code points, and slicing and \<open>len\<close> count code points,
  so a str is modelled as a list of code point numbers. \<open>lit\<close> embeds an ASCII literal of
  the source.
\<close>

type_synonym pystr = "nat list"

definition lit :: "string \<Rightarrow> pystr" where
  "lit s = map of_char s"

text \<open>\<open>str(n)\<close> for an integer: decimal digits, with a minus sign for a negative number.\<close>

fun str_nat :: "nat \<Rightarrow> pystr" where
  "str_nat n = (if n < 10 then [48 + n] else str_nat (n div 10) @ [48 + n mod 10])"

declare str_nat.simps [simp del]

definition str_int :: "int \<Rightarrow> pystr" where
  "str_int i = (if i < 0 then 45 # str_nat (nat (- i)) else str_nat (nat i))"

text \<open>
  \<open>s.replace(old, new)\<close>: every non-overlapping occurrence of \<open>old\<close>, found from the left,
  is replaced by \<open>new\<close>; with an empty \<open>old\<close>, \<open>new\<close> is inserted before every code point and
  at the end.
\<close>

function py_replace :: "pystr \<Rightarrow> pystr \<Rightarrow> pystr \<Rightarrow> pystr" where
  "py_replace old new s =
     (if old = [] then new @ concat (map (\<lambda>c. c # new) s)
      else if s = [] then []
      else if take (length old) s = old
        then new @ py_replace old new (drop (length old) s)
      else hd s # py_replace old new (tl s))"
  by pat_completeness auto
termination
  by (relation "measure (\<lambda>(old, new, s). length s)") (auto simp: neq_Nil_conv)

declare py_replace.simps [simp del]

text \<open>
  The exceptions of the model. \<open>ZeroDivisionError\<close> is raised by \<open>count / total\<close>;
  \<open>OperandError\<close> stands for the TypeError or AttributeError that a str operation raises on
  a value that is not a str; \<open>External name\<close> is an exception raised inside a library or
  a collaborator (pytube, requests, subprocess, zipfile, the file system), which the
  environment of a job chooses.
\<close>

datatype exn = ZeroDivisionError | OperandError | External pystr

text \<open>
  What \<open>response.json()\<close> yields: a JSON document as Python holds it. An object is the
  list of its items, each key once. Numbers are integers here; no definition below looks
  inside a number.
\<close>

datatype json =
    JNull
  | JBool bool
  | JNum int
  | JStr pystr
  | JArr "json list"
  | JObj "(pystr \<times> json) list"

text \<open>
  Subscription \<open>j[key]\<close> with a str key and \<open>j[0]\<close>; \<open>None\<close> when Python raises
  (KeyError, IndexError or TypeError). Both occur only inside a \<open>try\<close> whose bare
  \<open>except\<close> catches every exception, so which one it is does not matter.
\<close>

fun getitem_key :: "json \<Rightarrow> pystr \<Rightarrow> json option" where
  "getitem_key (JObj items) k = map_of items k"
| "getitem_key _ k = None"

fun getitem_0 :: "json \<Rightarrow> json option" where
  "getitem_0 (JArr (x # xs)) = Some x"
| "getitem_0 (JStr (c # cs)) = Some (JStr [c])"
| "getitem_0 _ = None"

section \<open>Data model\<close>

text \<open>
  A segment candidate is the dict \<open>{"start": .., "end": .., "viral_score": ..}\<close> that the
  scoring reply lists, a rendered short the dict \<open>{"file": .., "viral_score": ..}\<close> that
  \<open>process_segment\<close> returns, a job the dict \<open>{"id": .., "url": ..}\<close> that a submission
  appends to the queue, and a job result the dict \<open>{"shorts": .., "zip": ..}\<close>. The
  fields are prefixed where the key of the source is a name that is taken already.
\<close>

record seg =
  seg_start :: int
  seg_end :: int
  seg_viral_score :: int

record short =
  short_file :: pystr
  viral_score :: int

record job =
  job_id :: pystr
  job_url :: pystr

record job_result =
  shorts :: "short list"
  zip_file :: pystr

section \<open>Collaborators\<close>

text \<open>
  \<open>download_youtube_video(url, output_path)\<close>: pytube either raises (\<open>youtube url\<close> is the
  exception) or stores the stream; the path returned is \<open>os.path.join(output_path, "video.mp4")\<close>.
\<close>

definition download_youtube_video ::
    "(pystr \<Rightarrow> exn option) \<Rightarrow> pystr \<Rightarrow> pystr \<Rightarrow> exn + pystr" where
  "download_youtube_video youtube url output_path =
     (case youtube url of
        Some e \<Rightarrow> Inl e
      | None \<Rightarrow> Inr (output_path @ lit ''/video.mp4''))"

text \<open>
  \<open>generate_subtitles(video_path)\<close>. The argument \<open>whisper\<close> is what happens before the
  \<open>try\<close>: \<open>Inl e\<close> when extracting the audio, opening it or posting it raises \<open>e\<close>, and
  otherwise \<open>Inr body\<close>, where \<open>body\<close> is what \<open>response.json()\<close> yields, \<open>None\<close> when it
  raises. Inside the \<open>try\<close>, every exception is turned into the sentinel string.
\<close>

definition generate_subtitles :: "exn + json option \<Rightarrow> exn + json" where
  "generate_subtitles whisper =
     (case whisper of
        Inl e \<Rightarrow> Inl e
      | Inr body \<Rightarrow>
          (case Option.bind body (\<lambda>j. getitem_key j (lit ''text'')) of
             Some text \<Rightarrow> Inr text
           | None \<Rightarrow> Inr (JStr (lit ''Transcript not available.''))))"

text \<open>
  \<open>analyze_video_with_groq(transcript)\<close>. The argument \<open>groq\<close> is the outcome of
  \<open>requests.post\<close>, which is outside the \<open>try\<close>: \<open>Inl e\<close> when it raises, otherwise the
  body as above. \<open>loads\<close> is \<open>json.loads\<close>, \<open>None\<close> when it raises; its results are lists
  of segment candidates, the shape the prompt asks the model for. \<open>json.loads\<close> of a
  value that is not a str raises, too.
\<close>

definition analyze_video_with_groq ::
    "(pystr \<Rightarrow> seg list option) \<Rightarrow> exn + json option \<Rightarrow> exn + seg list" where
  "analyze_video_with_groq loads groq =
     (case groq of
        Inl e \<Rightarrow> Inl e
      | Inr body \<Rightarrow>
          (case Option.bind (Option.bind (Option.bind (Option.bind body
                   (\<lambda>j. getitem_key j (lit ''choices'')))
                   getitem_0)
                   (\<lambda>j. getitem_key j (lit ''text'')))
                   (\<lambda>j. case j of JStr s \<Rightarrow> loads s | _ \<Rightarrow> None) of
             Some segments \<Rightarrow> Inr segments
           | None \<Rightarrow> Inr []))"

section \<open>Rendering one segment\<close>

definition clip_file :: "nat \<Rightarrow> pystr" where
  "clip_file idx = lit ''short_'' @ str_nat (idx + 1) @ lit ''.mp4''"

definition subtitled_file :: "nat \<Rightarrow> pystr" where
  "subtitled_file idx = lit ''short_'' @ str_nat (idx + 1) @ lit ''_subtitled.mp4''"

definition clip_cmd :: "pystr \<Rightarrow> seg \<Rightarrow> nat \<Rightarrow> pystr list" where
  "clip_cmd video_path sg idx =
     [lit ''ffmpeg'', lit ''-i'', video_path, lit ''-ss'', str_int (seg_start sg),
      lit ''-to'', str_int (seg_end sg), lit ''-c'', lit ''copy'', clip_file idx]"

text \<open>\<open>transcript[:200].replace("\n", " ")\<close>; code point 10 is the newline, 32 the space.\<close>

definition caption_text :: "pystr \<Rightarrow> pystr" where
  "caption_text transcript = py_replace [10] [32] (take 200 transcript)"

text \<open>The \<open>drawtext\<close> filter; code point 39 is the apostrophe around the caption.\<close>

definition drawtext :: "pystr \<Rightarrow> pystr" where
  "drawtext caption =
     lit ''drawtext=text='' @ [39] @ caption @ [39]
       @ lit '':fontcolor=white:fontsize=24:x=(w-text_w)/2:y=h-50''"

definition caption_cmd :: "nat \<Rightarrow> pystr \<Rightarrow> pystr list" where
  "caption_cmd idx caption =
     [lit ''ffmpeg'', lit ''-i'', clip_file idx, lit ''-vf'', drawtext caption,
      lit ''-codec:a'', lit ''copy'', subtitled_file idx]"

text \<open>The dict that \<open>process_segment\<close> returns for the segment with index \<open>idx\<close>.\<close>

definition rendered_short :: "nat \<Rightarrow> seg \<Rightarrow> short" where
  "rendered_short idx sg = \<lparr>short_file = subtitled_file idx, viral_score = seg_viral_score sg\<rparr>"

text \<open>
  \<open>process_segment(video_path, seg, transcript, idx)\<close>. \<open>run argv\<close> is \<open>subprocess.run\<close>:
  the exception it raises, if any (it is called without \<open>check\<close>, so a failing ffmpeg
  does not raise). The result is the list of commands started, in order, and the
  exception or the rendered short. The transcript is whatever \<open>generate_subtitles\<close>
  returned; the caption is computed after the first command has run.
\<close>

definition process_segment ::
    "(pystr list \<Rightarrow> exn option) \<Rightarrow> pystr \<Rightarrow> seg \<Rightarrow> json \<Rightarrow> nat
      \<Rightarrow> pystr list list \<times> (exn + short)" where
  "process_segment run video_path sg transcript idx =
     (let c1 = clip_cmd video_path sg idx in
      case run c1 of
        Some e \<Rightarrow> ([c1], Inl e)
      | None \<Rightarrow>
          (case transcript of
             JStr t \<Rightarrow>
               (let c2 = caption_cmd idx (caption_text t) in
                case run c2 of
                  Some e \<Rightarrow> ([c1, c2], Inl e)
                | None \<Rightarrow>
                    ([c1, c2], Inr (rendered_short idx sg)))
           | _ \<Rightarrow> ([c1], Inl OperandError)))"

section \<open>Rendering all segments\<close>

text \<open>
  \<open>count / total\<close>: Python raises on a zero divisor, where HOL's division yields 0. The
  quotient is Python's float nearest to the exact fraction; the model keeps the exact
  fraction.
\<close>

definition py_truediv :: "nat \<Rightarrow> nat \<Rightarrow> exn + rat" where
  "py_truediv a b = (if b = 0 then Inl ZeroDivisionError else Inr (of_nat a / of_nat b))"

text \<open>
  \<open>sorted(shorts, key=lambda x: x["viral_score"], reverse=True)\<close>: CPython reverses the
  list, sorts it stably in ascending order of the key, and reverses the outcome, so that
  equal keys keep the order they had in \<open>shorts\<close>.
\<close>

definition py_sorted_reverse :: "short list \<Rightarrow> short list" where
  "py_sorted_reverse xs = rev (sort_key viral_score (rev xs))"

text \<open>
  The loop over \<open>as_completed(futures)\<close>. \<open>result_of idx\<close> is what the future of segment
  \<open>idx\<close> holds, \<open>cnt\<close> the counter of \<open>enumerate(.., start=1)\<close> and \<open>tot\<close> the number
  of segments (\<open>count\<close> and \<open>total\<close> in the source), the list the indices in the order
  in which the futures complete. \<open>future.result()\<close> re-raises the exception of
  a failed task, which ends the loop; otherwise the short is appended and the callback
  is called. The calls of the callback are kept as the list of their arguments.
\<close>

fun collect ::
    "(nat \<Rightarrow> exn + short) \<Rightarrow> nat \<Rightarrow> nat \<Rightarrow> nat list \<Rightarrow> short list \<Rightarrow> rat list
      \<Rightarrow> (exn + short list) \<times> rat list" where
  "collect result_of tot cnt [] acc progress = (Inr acc, progress)"
| "collect result_of tot cnt (idx # rest) acc progress =
     (case result_of idx of
        Inl e \<Rightarrow> (Inl e, progress)
      | Inr s \<Rightarrow>
          (case py_truediv cnt tot of
             Inl e \<Rightarrow> (Inl e, progress)
           | Inr x \<Rightarrow> collect result_of tot (cnt + 1) rest (acc @ [s]) (progress @ [x])))"

text \<open>
  \<open>create_shorts_parallel(video_path, segments, transcript, update_progress)\<close>. One task
  per segment is submitted, with its index from \<open>enumerate(segments)\<close>. \<open>order\<close> is the
  order in which \<open>as_completed\<close> yields the futures, by index: some arrangement of
  \<open>[0..<len(segments)]\<close>, which the thread pool chooses. The result is the exception or the
  sorted list, and the arguments of the calls of \<open>update_progress\<close>.
\<close>

definition create_shorts_parallel ::
    "(pystr list \<Rightarrow> exn option) \<Rightarrow> pystr \<Rightarrow> seg list \<Rightarrow> json \<Rightarrow> nat list
      \<Rightarrow> (exn + short list) \<times> rat list" where
  "create_shorts_parallel run video_path segments transcript order =
     (let tot = length segments;
          futures = map (\<lambda>(idx, sg). snd (process_segment run video_path sg transcript idx))
                      (enumerate 0 segments);
          (r, progress) = collect (\<lambda>idx. futures ! idx) tot 1 order [] []
      in (case r of Inl e \<Rightarrow> Inl e | Inr acc \<Rightarrow> Inr (py_sorted_reverse acc), progress))"

text \<open>
  \<open>create_zip(shorts)\<close>: \<open>zipfile\<close> raises (\<open>zip_write shorts\<close> is the exception, for
  instance when a file is missing) or the archive is written.
\<close>

definition create_zip :: "(short list \<Rightarrow> exn option) \<Rightarrow> short list \<Rightarrow> exn + pystr" where
  "create_zip zip_write rendered =
     (case zip_write rendered of
        Some e \<Rightarrow> Inl e
      | None \<Rightarrow> Inr (lit ''shorts_bundle.zip''))"

section \<open>The session and the script\<close>

text \<open>
  \<open>st.session_state\<close>: the queue, the result store (a stored \<open>None\<close> is the failure
  marker) and the processing slot. It lives across the reruns of the script.
\<close>

record session_state =
  queue :: "job list"
  results :: "pystr \<rightharpoonup> job_result option"
  processing :: "pystr option"

definition init_state :: session_state where
  "init_state = \<lparr>queue = [], results = Map.empty, processing = None\<rparr>"

text \<open>
  What one rerun of the script reads from the page: the text input, whether the button
  was pressed, and the fresh \<open>str(uuid.uuid4())\<close>.
\<close>

record page_input =
  youtube_url :: pystr
  submit_pressed :: bool
  fresh_id :: pystr

text \<open>
  What the world does during one job: the directory of \<open>tempfile.mkdtemp()\<close>, pytube,
  the transcription service (by audio path), the scoring service (by transcript),
  \<open>json.loads\<close>, \<open>subprocess.run\<close>, the completion order of the render tasks, and
  \<open>zipfile\<close>.
\<close>

record env =
  env_temp_dir :: pystr
  env_youtube :: "pystr \<Rightarrow> exn option"
  env_whisper :: "pystr \<Rightarrow> exn + json option"
  env_groq :: "json \<Rightarrow> exn + json option"
  env_loads :: "pystr \<Rightarrow> seg list option"
  env_run :: "pystr list \<Rightarrow> exn option"
  env_order :: "nat list"
  env_zip :: "short list \<Rightarrow> exn option"

text \<open>The writes to \<open>st.session_state.processing\<close>, as a trace.\<close>

datatype slot_event = Acquire pystr | Release

text \<open>Lines 100 to 102: the submission.\<close>

definition submit_job :: "page_input \<Rightarrow> session_state \<Rightarrow> session_state" where
  "submit_job inp st =
     (if submit_pressed inp \<and> youtube_url inp \<noteq> []
      then st\<lparr>queue := queue st @ [\<lparr>job_id = fresh_id inp, job_url = youtube_url inp\<rparr>]\<rparr>
      else st)"

text \<open>
  Lines 111 to 128: the body of the spinner block, for the job that holds the slot. An
  exception leaves the block, and the script, at once: the state is the one reached so
  far. The result is the state, the writes to the slot and the exception, if any.
\<close>

definition process_job ::
    "env \<Rightarrow> job \<Rightarrow> session_state \<Rightarrow> session_state \<times> slot_event list \<times> exn option" where
  "process_job w current_job st =
     (case download_youtube_video (env_youtube w) (job_url current_job) (env_temp_dir w) of
        Inl e \<Rightarrow> (st, [], Some e)
      | Inr video_path \<Rightarrow>
     (case generate_subtitles (env_whisper w video_path) of
        Inl e \<Rightarrow> (st, [], Some e)
      | Inr transcript \<Rightarrow>
     (case analyze_video_with_groq (env_loads w) (env_groq w transcript) of
        Inl e \<Rightarrow> (st, [], Some e)
      | Inr segments \<Rightarrow>
          if segments \<noteq> [] then
            (case fst (create_shorts_parallel (env_run w) video_path segments transcript
                        (env_order w)) of
               Inl e \<Rightarrow> (st, [], Some e)
             | Inr rendered \<Rightarrow>
                 (case create_zip (env_zip w) rendered of
                    Inl e \<Rightarrow> (st, [], Some e)
                  | Inr zf \<Rightarrow>
                      (st\<lparr>results := (results st)(job_id current_job \<mapsto>
                                        Some \<lparr>shorts = rendered, zip_file = zf\<rparr>),
                          processing := None\<rparr>,
                       [Release], None)))
          else
            (st\<lparr>results := (results st)(job_id current_job \<mapsto> None), processing := None\<rparr>,
             [Release], None))))"

text \<open>
  Lines 100 to 128: one rerun of the script on the session state. \<open>queue.pop(0)\<close> is only
  reached with a queue that is not empty. The loop that shows the results (lines 131 to
  138) writes nothing to the session state.
\<close>

definition run_script ::
    "env \<Rightarrow> page_input \<Rightarrow> session_state \<Rightarrow> session_state \<times> slot_event list \<times> exn option" where
  "run_script w inp st0 =
     (let st = submit_job inp st0 in
      if processing st = None \<and> queue st \<noteq> [] then
        (case queue st of
           current_job # rest \<Rightarrow>
             (let st1 = st\<lparr>queue := rest, processing := Some (job_id current_job)\<rparr>;
                  (st2, evs, exc) = process_job w current_job st1
              in (st2, Acquire (job_id current_job) # evs, exc))
         | [] \<Rightarrow> (st, [], None))
      else (st, [], None))"

text \<open>
  A session: the script reruns once per element of the list, each rerun with its own
  page input and world. An exception ends that rerun only.
\<close>

fun run_session ::
    "(env \<times> page_input) list \<Rightarrow> session_state \<Rightarrow> session_state \<times> slot_event list" where
  "run_session [] st = (st, [])"
| "run_session ((w, inp) # rest) st =
     (case run_script w inp st of
        (st1, evs, exc) \<Rightarrow> (case run_session rest st1 of (st2, evs2) \<Rightarrow> (st2, evs @ evs2)))"

text \<open>
  Replaying a trace of slot writes from a slot value: \<open>None\<close> when the trace acquires a
  slot that is held or releases one that is idle, otherwise the slot value at the end.
\<close>

fun replay :: "pystr option \<Rightarrow> slot_event list \<Rightarrow> pystr option option" where
  "replay p [] = Some p"
| "replay None (Acquire j # es) = replay (Some j) es"
| "replay (Some j) (Release # es) = replay None es"
| "replay (Some j) (Acquire k # es) = None"
| "replay None (Release # es) = None"

section \<open>Observations on a session\<close>

text \<open>
  The ids of the jobs that acquire the slot, in the order of a trace, and the jobs that
  the reruns of a session submit, in order.
\<close>

fun acquired :: "slot_event list \<Rightarrow> pystr list" where
  "acquired [] = []"
| "acquired (Acquire j # es) = j # acquired es"
| "acquired (Release # es) = acquired es"

fun submitted :: "(env \<times> page_input) list \<Rightarrow> job list" where
  "submitted [] = []"
| "submitted ((w, inp) # rest) = queue (submit_job inp init_state) @ submitted rest"

section \<open>Example worlds\<close>

text \<open>
  Concrete inputs on which the theorems below are evaluated: candidates with the scores
  40, 90 and 10, two candidates with equal scores, the JSON text of a candidate list
  (code point 34 is the double quote), a \<open>json.loads\<close> that reads this text and \<open>[]\<close>, and
  worlds in which every collaborator answers, in which the video is unavailable, and in
  which the scoring reply is prose.
\<close>

definition segs_example :: "seg list" where
  "segs_example =
     [\<lparr>seg_start = 0, seg_end = 10, seg_viral_score = 40\<rparr>,
      \<lparr>seg_start = 12, seg_end = 30, seg_viral_score = 90\<rparr>,
      \<lparr>seg_start = 45, seg_end = 50, seg_viral_score = 10\<rparr>]"

definition segs_tie :: "seg list" where
  "segs_tie =
     [\<lparr>seg_start = 0, seg_end = 10, seg_viral_score = 50\<rparr>,
      \<lparr>seg_start = 10, seg_end = 25, seg_viral_score = 50\<rparr>]"

definition quoted :: "string \<Rightarrow> pystr" where
  "quoted s = [34] @ lit s @ [34]"

definition seg_text :: "seg \<Rightarrow> pystr" where
  "seg_text sg =
     lit ''{'' @ quoted ''start'' @ lit '': '' @ str_int (seg_start sg) @ lit '', ''
       @ quoted ''end'' @ lit '': '' @ str_int (seg_end sg) @ lit '', ''
       @ quoted ''viral_score'' @ lit '': '' @ str_int (seg_viral_score sg) @ lit ''}''"

fun join :: "pystr \<Rightarrow> pystr list \<Rightarrow> pystr" where
  "join sep [] = []"
| "join sep [x] = x"
| "join sep (x # y # ys) = x @ sep @ join sep (y # ys)"

definition segs_text :: "seg list \<Rightarrow> pystr" where
  "segs_text sgs = lit ''['' @ join (lit '', '') (map seg_text sgs) @ lit '']''"

definition loads_example :: "pystr \<Rightarrow> seg list option" where
  "loads_example s =
     (if s = segs_text segs_example then Some segs_example
      else if s = lit ''[]'' then Some []
      else None)"

definition no_raise :: "'a \<Rightarrow> exn option" where
  "no_raise x = None"

definition unavailable :: "pystr \<Rightarrow> exn option" where
  "unavailable url = Some (External (lit ''VideoUnavailable''))"

definition transcript_example :: pystr where
  "transcript_example = lit ''first line'' @ [10] @ lit ''second line''"

definition whisper_example :: "pystr \<Rightarrow> exn + json option" where
  "whisper_example path = Inr (Some (JObj [(lit ''text'', JStr transcript_example)]))"

definition completion :: "json \<Rightarrow> json option" where
  "completion text = Some (JObj [(lit ''choices'', JArr [JObj [(lit ''text'', text)]])])"

definition groq_example :: "json \<Rightarrow> exn + json option" where
  "groq_example transcript = Inr (completion (JStr (segs_text segs_example)))"

definition groq_prose :: "json \<Rightarrow> exn + json option" where
  "groq_prose transcript = Inr (completion (JStr (lit ''I found no viral segments.'')))"

definition world_ok :: env where
  "world_ok =
     \<lparr>env_temp_dir = lit ''/tmp/job'', env_youtube = no_raise, env_whisper = whisper_example,
      env_groq = groq_example, env_loads = loads_example, env_run = no_raise,
      env_order = [2, 0, 1], env_zip = no_raise\<rparr>"

definition world_unavailable :: env where
  "world_unavailable = world_ok\<lparr>env_youtube := unavailable\<rparr>"

definition world_prose :: env where
  "world_prose = world_ok\<lparr>env_groq := groq_prose\<rparr>"

definition job_a :: job where
  "job_a = \<lparr>job_id = lit ''job-a'', job_url = lit ''https://youtu.be/a''\<rparr>"

definition job_b :: job where
  "job_b = \<lparr>job_id = lit ''job-b'', job_url = lit ''https://youtu.be/b''\<rparr>"

definition submit_a :: page_input where
  "submit_a = \<lparr>youtube_url = job_url job_a, submit_pressed = True, fresh_id = job_id job_a\<rparr>"

definition submit_b :: page_input where
  "submit_b = \<lparr>youtube_url = job_url job_b, submit_pressed = True, fresh_id = job_id job_b\<rparr>"

definition no_submit :: page_input where
  "no_submit = \<lparr>youtube_url = [], submit_pressed = False, fresh_id = lit ''job-c''\<rparr>"

definition st_busy :: session_state where
  "st_busy = init_state\<lparr>queue := [job_b], processing := Some (job_id job_a)\<rparr>"

definition session_example :: "(env \<times> page_input) list" where
  "session_example =
     [(world_ok, submit_a), (world_unavailable, submit_b), (world_ok, submit_a),
      (world_ok, no_submit)]"

section \<open>Lemmas on the render coordinator\<close>


lemma collect_ok:
  assumes "order = [] \<or> 0 < tot" and "\<forall>idx\<in>set order. result_of idx = Inr (f idx)"
  shows "collect result_of tot cnt order acc progress =
           (Inr (acc @ map f order),
            progress @ map (\<lambda>k. of_nat k / of_nat tot) [cnt..<cnt + length order])"
  using assms
proof (induction order arbitrary: cnt acc progress)
  case Nil
  show ?case by simp
next
  case (Cons idx rest)
  have "[cnt..<cnt + length (idx # rest)] = cnt # [Suc cnt..<Suc cnt + length rest]"
    by (subst upt_rec) simp
  moreover from Cons.prems have "0 < tot" by simp
  ultimately show ?case using Cons
    by (simp add: py_truediv_def)
qed

lemma py_sorted_reverse_desc: "sorted_wrt (\<ge>) (map viral_score (py_sorted_reverse xs))"
  unfolding py_sorted_reverse_def
  by (simp add: sorted_wrt_rev flip: rev_map) 

lemma py_sorted_reverse_stable:
  "filter (\<lambda>s. viral_score s = k) (py_sorted_reverse xs) = filter (\<lambda>s. viral_score s = k) xs"
  unfolding py_sorted_reverse_def
  by (simp add: rev_filter [symmetric] sort_key_stable)

lemma mset_py_sorted_reverse: "mset (py_sorted_reverse xs) = mset xs"
  by (simp add: py_sorted_reverse_def)

lemma futures_nth:
  assumes "idx < length segments"
  shows "map (\<lambda>(i, sg). snd (process_segment run video_path sg transcript i))
           (enumerate 0 segments) ! idx
         = snd (process_segment run video_path (segments ! idx) transcript idx)"
  using assms by (simp add: nth_enumerate_eq)

lemma create_shorts_parallel_ok:
  assumes "set order \<subseteq> {..<length segments}"
    and "\<forall>idx<length segments.
           snd (process_segment run video_path (segments ! idx) transcript idx)
             = Inr (rendered_short idx (segments ! idx))"
  shows "create_shorts_parallel run video_path segments transcript order =
           (Inr (py_sorted_reverse (map (\<lambda>idx. rendered_short idx (segments ! idx)) order)),
            map (\<lambda>k. of_nat k / of_nat (length segments)) [1..<1 + length order])"
proof -
  let ?futures = "map (\<lambda>(i, sg). snd (process_segment run video_path sg transcript i))
                    (enumerate 0 segments)"
  have ok: "\<forall>idx\<in>set order. ?futures ! idx = Inr (rendered_short idx (segments ! idx))"
  proof
    fix idx assume "idx \<in> set order"
    with assms(1) have lt: "idx < length segments" by auto
    with assms(2) show "?futures ! idx = Inr (rendered_short idx (segments ! idx))"
      by (simp only: futures_nth [OF lt])
  qed
  have pos: "order = [] \<or> 0 < length segments"
    using assms(1) by (cases order) auto
  have "collect (\<lambda>idx. ?futures ! idx) (length segments) 1 order [] [] =
          (Inr (map (\<lambda>idx. rendered_short idx (segments ! idx)) order),
           map (\<lambda>k. of_nat k / of_nat (length segments)) [1..<1 + length order])"
    using collect_ok [OF pos ok, of 1 "[]" "[]"] by simp
  then show ?thesis
    by (simp add: create_shorts_parallel_def)
qed

lemma py_sorted_reverse_distinct_unique:
  assumes "distinct (map viral_score xs)" and "mset xs = mset ys"
  shows "py_sorted_reverse xs = py_sorted_reverse ys"
proof -
  have dy: "distinct (map viral_score ys)"
    using assms by (metis distinct_map mset_eq_imp_distinct_iff mset_map mset_eq_setD) 
  have s: "set xs = set ys" using assms(2) by (rule mset_eq_setD)
  have "sort_key viral_score (rev xs) = sort_key viral_score (rev ys)"
  proof (rule map_sorted_distinct_set_unique [where f = viral_score])
    show "inj_on viral_score (set (sort_key viral_score (rev xs)) \<union> set (sort_key viral_score (rev ys)))"
      using assms(1) s by (simp add: distinct_map)
    show "distinct (map viral_score (sort_key viral_score (rev xs)))"
      using assms(1) by (simp add: distinct_map)
    show "distinct (map viral_score (sort_key viral_score (rev ys)))"
      using dy by (simp add: distinct_map)
    show "set (sort_key viral_score (rev xs)) = set (sort_key viral_score (rev ys))"
      using s by simp
  qed simp_all
  then show ?thesis by (simp add: py_sorted_reverse_def)
qed

section \<open>Lemmas on the session\<close>

lemma replay_append:
  "replay p (es @ fs) = Option.bind (replay p es) (\<lambda>q. replay q fs)"
  by (induction p es rule: replay.induct) simp_all

lemma acquired_append: "acquired (es @ fs) = acquired es @ acquired fs"
  by (induction es rule: acquired.induct) simp_all

lemma process_job_cases:
  "(\<exists>e. process_job w j st = (st, [], Some e)) \<or>
   (\<exists>r. process_job w j st =
          (st\<lparr>results := (results st)(job_id j \<mapsto> r), processing := None\<rparr>, [Release], None))"
  unfolding process_job_def
  by (auto split: sum.splits)

lemma run_script_cases:
  "(run_script w inp st = (submit_job inp st, [], None)
      \<and> (processing st \<noteq> None \<or> queue (submit_job inp st) = []))
   \<or> (\<exists>j q e. processing st = None \<and> queue (submit_job inp st) = j # q
         \<and> run_script w inp st =
             ((submit_job inp st)\<lparr>queue := q, processing := Some (job_id j)\<rparr>,
              [Acquire (job_id j)], Some e))
   \<or> (\<exists>j q r. processing st = None \<and> queue (submit_job inp st) = j # q
         \<and> run_script w inp st =
             ((submit_job inp st)\<lparr>queue := q,
                 results := (results (submit_job inp st))(job_id j \<mapsto> r), processing := None\<rparr>,
              [Acquire (job_id j), Release], None))"
proof -
  have p: "processing (submit_job inp st) = processing st"
    by (simp add: submit_job_def)
  show ?thesis
  proof (cases "processing st = None \<and> queue (submit_job inp st) \<noteq> []")
    case False
    then show ?thesis by (auto simp: run_script_def Let_def p)
  next
    case True
    then obtain j q where q: "queue (submit_job inp st) = j # q"
      by (cases "queue (submit_job inp st)") auto
    let ?st1 = "(submit_job inp st)\<lparr>queue := q, processing := Some (job_id j)\<rparr>"
    from process_job_cases [of w j ?st1] show ?thesis
    proof
      assume "\<exists>e. process_job w j ?st1 = (?st1, [], Some e)"
      then show ?thesis using True q by (auto simp: run_script_def Let_def p)
    next
      assume "\<exists>r. process_job w j ?st1 =
          (?st1\<lparr>results := (results ?st1)(job_id j \<mapsto> r), processing := None\<rparr>, [Release], None)"
      then show ?thesis using True q by (auto simp: run_script_def Let_def p)
    qed
  qed
qed

lemma run_script_replay:
  "replay (processing st) (fst (snd (run_script w inp st)))
     = Some (processing (fst (run_script w inp st)))"
  using run_script_cases [of w inp st]
  by (auto simp: submit_job_def)

lemma run_session_replay:
  "replay (processing st) (snd (run_session rs st)) = Some (processing (fst (run_session rs st)))"
proof (induction rs arbitrary: st)
  case Nil
  show ?case by simp
next
  case (Cons r rs)
  obtain w inp where r: "r = (w, inp)" by (cases r)
  obtain st1 evs exc where s: "run_script w inp st = (st1, evs, exc)"
    by (cases "run_script w inp st")
  obtain st2 evs2 where t: "run_session rs st1 = (st2, evs2)"
    by (cases "run_session rs st1")
  from run_script_replay [of st w inp] s have "replay (processing st) evs = Some (processing st1)"
    by simp
  moreover from Cons.IH [of st1] t have "replay (processing st1) evs2 = Some (processing st2)"
    by simp
  ultimately show ?case by (simp add: r s t replay_append)
qed

lemma queue_submit_job: "queue (submit_job inp st) = queue st @ queue (submit_job inp init_state)"
  by (simp add: submit_job_def init_state_def)

lemma run_script_fifo:
  "acquired (fst (snd (run_script w inp st))) @ map job_id (queue (fst (run_script w inp st)))
     = map job_id (queue (submit_job inp st))"
  using run_script_cases [of w inp st] by auto

lemma run_session_fifo:
  "acquired (snd (run_session rs st)) @ map job_id (queue (fst (run_session rs st)))
     = map job_id (queue st) @ map job_id (submitted rs)"
proof (induction rs arbitrary: st)
  case Nil
  show ?case by simp
next
  case (Cons r rs)
  obtain w inp where r: "r = (w, inp)" by (cases r)
  obtain st1 evs exc where s: "run_script w inp st = (st1, evs, exc)"
    by (cases "run_script w inp st")
  obtain st2 evs2 where t: "run_session rs st1 = (st2, evs2)"
    by (cases "run_session rs st1")
  from run_script_fifo [of w inp st] s
  have a: "acquired evs @ map job_id (queue st1) = map job_id (queue (submit_job inp st))"
    by simp
  from Cons.IH [of st1] t
  have b: "acquired evs2 @ map job_id (queue st2) = map job_id (queue st1) @ map job_id (submitted rs)"
    by simp
  have "acquired (evs @ evs2) @ map job_id (queue st2)
          = acquired evs @ (acquired evs2 @ map job_id (queue st2))"
    by (simp add: acquired_append)
  also have "\<dots> = (acquired evs @ map job_id (queue st1)) @ map job_id (submitted rs)"
    by (simp add: b)
  also have "\<dots> = map job_id (queue st) @ map job_id (submitted (r # rs))"
    by (simp add: a r queue_submit_job [of inp st])
  finally show ?case by (simp add: r s t)
qed

section \<open>Lemmas on the examples\<close>

lemmas world_defs = world_ok_def world_unavailable_def world_prose_def no_raise_def
  unavailable_def whisper_example_def groq_example_def groq_prose_def completion_def
  loads_example_def job_a_def job_b_def submit_a_def submit_b_def no_submit_def
  st_busy_def init_state_def

lemma process_segment_no_raise:
  "snd (process_segment no_raise video_path sg (JStr t) idx) = Inr (rendered_short idx sg)"
  by (simp add: process_segment_def no_raise_def Let_def)


lemma upt_3: "[0..<length segs_example] = [0, 1, 2]"
  by (simp add: segs_example_def upt_rec)

section \<open>The processing slot\<close>

text \<open>
  C1. The claim: on every outcome path of a job, failures included, the slot is set back
  to idle exactly once before the next job can begin. The script releases the slot in
  its last statement of the block only, with no \<open>try\<close> around the collaborators, so an
  exception on the way skips the release. Here the download of job a raises: the rerun
  ends with the slot held by job a and a trace without a release, and the next rerun,
  in a world where everything works, queues a new submission and starts nothing.
\<close>

theorem slot_stays_held_when_download_raises:
  "run_script world_unavailable no_submit (init_state\<lparr>queue := [job_a, job_b]\<rparr>)
     = (init_state\<lparr>queue := [job_b], processing := Some (job_id job_a)\<rparr>,
        [Acquire (job_id job_a)], Some (External (lit ''VideoUnavailable'')))
   \<and> run_script world_ok submit_a (init_state\<lparr>queue := [job_b], processing := Some (job_id job_a)\<rparr>)
     = (init_state\<lparr>queue := [job_b, job_a], processing := Some (job_id job_a)\<rparr>, [], None)"
  by (simp add: run_script_def submit_job_def process_job_def download_youtube_video_def
        world_defs lit_def)

text \<open>
  C2. At most one job is in the slot at any instant: replayed from the slot value at
  the start of any session, the writes to the slot never acquire a held slot and never
  release an idle one, and they end in the slot value of the final state. A rerun that
  finds the slot held dequeues nothing: it is the submission alone.
\<close>

theorem one_job_in_the_slot:
  "replay (processing st) (snd (run_session rs st)) = Some (processing (fst (run_session rs st)))
   \<and> (processing st \<noteq> None \<longrightarrow> run_script w inp st = (submit_job inp st, [], None))"
proof
  show "replay (processing st) (snd (run_session rs st))
          = Some (processing (fst (run_session rs st)))"
    by (rule run_session_replay)
  show "processing st \<noteq> None \<longrightarrow> run_script w inp st = (submit_job inp st, [], None)"
    using run_script_cases [of w inp st] by auto
qed

theorem one_job_in_the_slot_witness:
  "processing st_busy \<noteq> None
   \<and> run_script world_ok submit_b st_busy = (submit_job submit_b st_busy, [], None)
   \<and> replay (processing st_busy) (snd (run_session session_example st_busy))
       = Some (processing (fst (run_session session_example st_busy)))"
proof -
  have h: "processing st_busy \<noteq> None" by (simp add: st_busy_def)
  from one_job_in_the_slot [of st_busy session_example world_ok submit_b] h
  show ?thesis by blast
qed

section \<open>The queue\<close>

text \<open>
  C5. A submission appends the new job at the tail of the queue. A rerun with an idle
  slot and a queue whose head is \<open>j\<close> acquires the slot for \<open>j\<close> and removes the head.
  Over a whole session, the jobs that acquired the slot, in order, followed by the jobs
  still queued, are the jobs queued at the start followed by the submissions, in order.
\<close>

theorem queue_is_fifo:
  "(submit_pressed inp \<and> youtube_url inp \<noteq> [] \<longrightarrow>
      queue (submit_job inp st)
        = queue st @ [\<lparr>job_id = fresh_id inp, job_url = youtube_url inp\<rparr>])
   \<and> (processing st = None \<and> queue st = j # q \<longrightarrow>
        (\<exists>evs. fst (snd (run_script w inp st)) = Acquire (job_id j) # evs)
        \<and> queue (fst (run_script w inp st)) = tl (queue (submit_job inp st)))
   \<and> acquired (snd (run_session rs st)) @ map job_id (queue (fst (run_session rs st)))
       = map job_id (queue st) @ map job_id (submitted rs)"
proof (intro conjI impI)
  assume "submit_pressed inp \<and> youtube_url inp \<noteq> []"
  then show "queue (submit_job inp st)
        = queue st @ [\<lparr>job_id = fresh_id inp, job_url = youtube_url inp\<rparr>]"
    by (simp add: submit_job_def)
next
  assume a: "processing st = None \<and> queue st = j # q"
  then have hdq: "\<exists>q'. queue (submit_job inp st) = j # q'"
    by (simp add: submit_job_def)
  with a run_script_cases [of w inp st]
  show "\<exists>evs. fst (snd (run_script w inp st)) = Acquire (job_id j) # evs"
    by auto
  from hdq a run_script_cases [of w inp st]
  show "queue (fst (run_script w inp st)) = tl (queue (submit_job inp st))"
    by auto
next
  show "acquired (snd (run_session rs st)) @ map job_id (queue (fst (run_session rs st)))
       = map job_id (queue st) @ map job_id (submitted rs)"
    by (rule run_session_fifo)
qed

text \<open>
  The theorem at a concrete session: job b waits behind a, is acquired second, and the
  second submission of a stays queued.
\<close>

theorem queue_is_fifo_witness:
  "submit_pressed submit_b \<and> youtube_url submit_b \<noteq> []
   \<and> processing (init_state\<lparr>queue := [job_a]\<rparr>) = None
   \<and> queue (init_state\<lparr>queue := [job_a]\<rparr>) = job_a # []
   \<and> queue (submit_job submit_b (init_state\<lparr>queue := [job_a]\<rparr>)) = [job_a, job_b]
   \<and> (\<exists>evs. fst (snd (run_script world_ok submit_b (init_state\<lparr>queue := [job_a]\<rparr>)))
                = Acquire (job_id job_a) # evs)
   \<and> queue (fst (run_script world_ok submit_b (init_state\<lparr>queue := [job_a]\<rparr>))) = [job_b]"
proof -
  let ?st = "init_state\<lparr>queue := [job_a]\<rparr>"
  have h1: "submit_pressed submit_b \<and> youtube_url submit_b \<noteq> []"
    by (simp add: world_defs lit_def)
  have h2: "processing ?st = None \<and> queue ?st = job_a # []"
    by (simp add: init_state_def)
  have e: "\<lparr>job_id = fresh_id submit_b, job_url = youtube_url submit_b\<rparr> = job_b"
    by (simp add: world_defs)
  from queue_is_fifo [of submit_b ?st job_a "[]" world_ok "[]"] h1 h2 e
  show ?thesis by simp
qed

section \<open>The result of a job without candidates\<close>

text \<open>
  C6. When the slot is idle, the job \<open>j\<close> is at the head of the queue, the download and
  the transcription return, and the scoring step returns the empty candidate list, the
  result stored under the id of \<open>j\<close> is \<open>None\<close>, the failure marker, and not a result with a
  list of shorts.
\<close>

theorem empty_candidates_store_failure_marker:
  assumes "processing st = None"
    and "queue (submit_job inp st) = j # q"
    and "download_youtube_video (env_youtube w) (job_url j) (env_temp_dir w) = Inr video_path"
    and "generate_subtitles (env_whisper w video_path) = Inr transcript"
    and "analyze_video_with_groq (env_loads w) (env_groq w transcript) = Inr []"
  shows "results (fst (run_script w inp st)) (job_id j) = Some None"
proof -
  have p: "processing (submit_job inp st) = None"
    using assms(1) by (simp add: submit_job_def)
  show ?thesis
    using assms(2-5) p
    by (simp add: run_script_def process_job_def Let_def)
qed

theorem empty_candidates_store_failure_marker_witness:
  "processing init_state = None
   \<and> queue (submit_job submit_a init_state) = [job_a]
   \<and> download_youtube_video (env_youtube world_prose) (job_url job_a) (env_temp_dir world_prose)
       = Inr (lit ''/tmp/job/video.mp4'')
   \<and> generate_subtitles (env_whisper world_prose (lit ''/tmp/job/video.mp4''))
       = Inr (JStr transcript_example)
   \<and> analyze_video_with_groq (env_loads world_prose)
         (env_groq world_prose (JStr transcript_example)) = Inr []
   \<and> results (fst (run_script world_prose submit_a init_state)) (job_id job_a) = Some None"
proof -
  have h1: "processing init_state = None"
    by (simp add: init_state_def)
  have h2: "queue (submit_job submit_a init_state) = [job_a]"
    by (simp add: submit_job_def world_defs lit_def)
  have h3: "download_youtube_video (env_youtube world_prose) (job_url job_a)
              (env_temp_dir world_prose) = Inr (lit ''/tmp/job/video.mp4'')"
    by (simp add: download_youtube_video_def world_defs lit_def)
  have h4: "generate_subtitles (env_whisper world_prose (lit ''/tmp/job/video.mp4''))
              = Inr (JStr transcript_example)"
    by (simp add: generate_subtitles_def world_defs lit_def)
  have h5: "analyze_video_with_groq (env_loads world_prose)
              (env_groq world_prose (JStr transcript_example)) = Inr []"
    by (simp add: analyze_video_with_groq_def world_defs lit_def segs_text_def seg_text_def)
  from empty_candidates_store_failure_marker [OF h1 h2 h3 h4 h5] h1 h2 h3 h4 h5
  show ?thesis by simp
qed

section \<open>The collaborator boundaries\<close>




text \<open>
  C8. Once the transcription request has returned, \<open>generate_subtitles\<close> does not raise.
  A response that is not JSON, that is not an object, or that has no \<open>text\<close> gives the
  sentinel string \<open>Transcript not available.\<close>; an object with a \<open>text\<close> gives that text.
\<close>

theorem generate_subtitles_sentinel:
  "\<not> isl (generate_subtitles (Inr body))
   \<and> generate_subtitles (Inr None) = Inr (JStr (lit ''Transcript not available.''))
   \<and> ((\<forall>items. j \<noteq> JObj items) \<longrightarrow>
        generate_subtitles (Inr (Some j)) = Inr (JStr (lit ''Transcript not available.'')))
   \<and> (map_of items (lit ''text'') = None \<longrightarrow>
        generate_subtitles (Inr (Some (JObj items)))
          = Inr (JStr (lit ''Transcript not available.'')))
   \<and> (map_of items (lit ''text'') = Some text \<longrightarrow>
        generate_subtitles (Inr (Some (JObj items))) = Inr text)"
proof -
  have "(\<forall>items. j \<noteq> JObj items) \<longrightarrow> getitem_key j (lit ''text'') = None"
    by (cases j) simp_all
  then show ?thesis
    by (auto simp: generate_subtitles_def split: option.splits)
qed

theorem generate_subtitles_sentinel_witness:
  "(\<forall>items. JStr (lit ''Bad Gateway'') \<noteq> JObj items)
   \<and> map_of [(lit ''error'', JStr (lit ''Model is loading''))] (lit ''text'') = None
   \<and> map_of [(lit ''text'', JStr transcript_example)] (lit ''text'') = Some (JStr transcript_example)
   \<and> generate_subtitles (Inr (Some (JStr (lit ''Bad Gateway''))))
       = Inr (JStr (lit ''Transcript not available.''))
   \<and> generate_subtitles (Inr (Some (JObj [(lit ''error'', JStr (lit ''Model is loading''))])))
       = Inr (JStr (lit ''Transcript not available.''))
   \<and> generate_subtitles (Inr (Some (JObj [(lit ''text'', JStr transcript_example)])))
       = Inr (JStr transcript_example)"
proof -
  have h1: "\<forall>items. JStr (lit ''Bad Gateway'') \<noteq> JObj items"
    by simp
  have h2: "map_of [(lit ''error'', JStr (lit ''Model is loading''))] (lit ''text'') = None"
    by (simp add: lit_def)
  have h3: "map_of [(lit ''text'', JStr transcript_example)] (lit ''text'')
              = Some (JStr transcript_example)"
    by simp
  from generate_subtitles_sentinel
         [of None "JStr (lit ''Bad Gateway'')" "[(lit ''error'', JStr (lit ''Model is loading''))]"]
       generate_subtitles_sentinel
         [of None "JStr (lit ''Bad Gateway'')" "[(lit ''text'', JStr transcript_example)]"
             "JStr transcript_example"]
       h1 h2 h3
  show ?thesis by simp
qed

section \<open>The caption\<close>



section \<open>The render coordinator\<close>

text \<open>
  C3, as claimed: shorts with equal scores come out in the order of their candidates,
  whatever the completion order. They do not: \<open>shorts\<close> is filled in completion order and
  the sort is stable on that list. With two candidates of score 50 of which the second
  completes first, the short of the second candidate comes first.
\<close>

theorem ties_come_out_in_completion_order:
  "fst (create_shorts_parallel no_raise (lit ''/tmp/job/video.mp4'') segs_tie
         (JStr transcript_example) [1, 0])
     = Inr [rendered_short 1 (segs_tie ! 1), rendered_short 0 (segs_tie ! 0)]
   \<and> fst (create_shorts_parallel no_raise (lit ''/tmp/job/video.mp4'') segs_tie
         (JStr transcript_example) [1, 0])
     \<noteq> Inr [rendered_short 0 (segs_tie ! 0), rendered_short 1 (segs_tie ! 1)]"
  by (simp add: create_shorts_parallel_def process_segment_def no_raise_def py_truediv_def
        py_sorted_reverse_def rendered_short_def subtitled_file_def segs_tie_def lit_def
        str_nat.simps Let_def)

text \<open>
  C3, amended. When every render succeeds and the completion order is an arrangement of
  the indices, \<open>create_shorts_parallel\<close> returns the N rendered shorts of the candidates,
  sorted by \<open>viral_score\<close> in descending order; shorts with equal \<open>viral_score\<close> appear in
  the order in which their renders completed; and when the scores of the candidates are
  pairwise distinct, the list is the same for every completion order.
\<close>

theorem create_shorts_parallel_sorted:
  assumes "mset order = mset [0..<length segments]"
    and "\<forall>idx<length segments.
           snd (process_segment run video_path (segments ! idx) transcript idx)
             = Inr (rendered_short idx (segments ! idx))"
  shows "\<exists>ys. fst (create_shorts_parallel run video_path segments transcript order) = Inr ys
           \<and> length ys = length segments
           \<and> mset ys = mset (map (\<lambda>idx. rendered_short idx (segments ! idx))
                               [0..<length segments])
           \<and> sorted_wrt (\<ge>) (map viral_score ys)
           \<and> (\<forall>k. filter (\<lambda>s. viral_score s = k) ys
                   = filter (\<lambda>s. viral_score s = k)
                       (map (\<lambda>idx. rendered_short idx (segments ! idx)) order))
           \<and> (distinct (map seg_viral_score segments) \<longrightarrow>
                ys = py_sorted_reverse (map (\<lambda>idx. rendered_short idx (segments ! idx))
                                          [0..<length segments]))"
proof -
  let ?f = "\<lambda>idx. rendered_short idx (segments ! idx)"
  let ?ys = "py_sorted_reverse (map ?f order)"
  have so: "set order = {..<length segments}"
    using mset_eq_setD [OF assms(1)] by auto
  then have sub: "set order \<subseteq> {..<length segments}" by simp
  have r: "fst (create_shorts_parallel run video_path segments transcript order) = Inr ?ys"
    by (simp add: create_shorts_parallel_ok [OF sub assms(2)])
  have m: "mset (map ?f order) = mset (map ?f [0..<length segments])"
    using assms(1) by (metis mset_map)
  have len: "length ?ys = length segments"
    using mset_eq_length [OF assms(1)] by (simp add: py_sorted_reverse_def)
  have ms: "mset ?ys = mset (map ?f [0..<length segments])"
    by (simp only: mset_py_sorted_reverse m)
  have vs: "map viral_score (map ?f [0..<length segments]) = map seg_viral_score segments"
    by (rule nth_equalityI) (simp_all add: rendered_short_def)
  have d: "distinct (map seg_viral_score segments) \<longrightarrow>
             ?ys = py_sorted_reverse (map ?f [0..<length segments])"
  proof
    assume "distinct (map seg_viral_score segments)"
    then have "distinct (map viral_score (map ?f [0..<length segments]))"
      by (simp only: vs)
    from py_sorted_reverse_distinct_unique [OF this m [symmetric]]
    show "?ys = py_sorted_reverse (map ?f [0..<length segments])" by simp
  qed
  from r len ms py_sorted_reverse_desc [of "map ?f order"]
       py_sorted_reverse_stable [of _ "map ?f order"] d
  show ?thesis by blast
qed

theorem create_shorts_parallel_sorted_witness:
  "mset [2, 0, 1] = mset [0..<length segs_example]
   \<and> distinct (map seg_viral_score segs_example)
   \<and> (\<exists>ys. fst (create_shorts_parallel no_raise (lit ''/tmp/job/video.mp4'') segs_example
                   (JStr transcript_example) [2, 0, 1]) = Inr ys
          \<and> length ys = 3
          \<and> sorted_wrt (\<ge>) (map viral_score ys)
          \<and> ys = py_sorted_reverse (map (\<lambda>idx. rendered_short idx (segs_example ! idx))
                                      [0..<length segs_example]))"
proof -
  have h1: "mset [2, 0, 1] = mset [0..<length segs_example]"
    by (simp add: upt_3)
  have h2: "\<forall>idx<length segs_example.
         snd (process_segment no_raise (lit ''/tmp/job/video.mp4'') (segs_example ! idx)
                (JStr transcript_example) idx)
           = Inr (rendered_short idx (segs_example ! idx))"
    by (simp add: process_segment_no_raise)
  have h3: "distinct (map seg_viral_score segs_example)"
    by (simp add: segs_example_def)
  have l: "length segs_example = 3" by (simp add: segs_example_def)
  from create_shorts_parallel_sorted [OF h1 h2] h1 h3 l
  show ?thesis by auto
qed



text \<open>
  C10. With an empty segment list no future exists, so the completion order is empty:
  \<open>create_shorts_parallel\<close> returns the empty list, the callback is never called and
  \<open>count / total\<close>, which would raise ZeroDivisionError, is never evaluated.
\<close>

theorem no_progress_for_no_segments:
  assumes "set order \<subseteq> {..<length ([] :: seg list)}"
  shows "create_shorts_parallel run video_path [] transcript order = (Inr [], [])"
proof -
  from assms have "order = []" by simp
  then show ?thesis
    by (simp add: create_shorts_parallel_def py_sorted_reverse_def)
qed

theorem no_progress_for_no_segments_witness:
  "set ([] :: nat list) \<subseteq> {..<length ([] :: seg list)}
   \<and> create_shorts_parallel no_raise (lit ''/tmp/job/video.mp4'') [] (JStr transcript_example) []
       = (Inr [], [])"
proof -
  have h: "set ([] :: nat list) \<subseteq> {..<length ([] :: seg list)}" by simp
  from no_progress_for_no_segments [OF h] h show ?thesis by simp
qed

end
